theory Spec2Isabelle
  imports Main "HOL-Library.Sublist"
begin

text \<open>
  The image pipeline of the Wikipedia scraper: the filename codec, the cache probe, the two
  image locators and the two workers, \<open>WikiImageDownloader.download_image_from_entry\<close>
  (thread pool) and \<open>AsyncWikiImageDownloader.process_entry\<close> (async), with the lists of
  entries their batches hand to them. A worker is a function of the entry and of what the
  outside world answers during the invocation; it returns the exception that leaves it, or
  the updated entry with the requests made, the file written and the return statement
  taken. Paths are joined as on POSIX. Logging and the scheduling of the workers are not
  modelled.
\<close>

section \<open>Strings\<close>

text \<open>
  A Python \<open>str\<close> is modelled as a \<open>string\<close>: a list of code points below 256, so the
  tables below are those of Python 3 for U+0000 to U+00FF (ASCII and Latin-1).
\<close>

definition whitespace :: "char \<Rightarrow> bool" where
  \<comment> \<open>\<open>str.isspace\<close> on one character: the characters \<open>str.strip()\<close> removes.\<close>
  "whitespace c =
     (let n = (of_char c :: nat)
      in (9 \<le> n \<and> n \<le> 13) \<or> (28 \<le> n \<and> n \<le> 32) \<or> n = 133 \<or> n = 160)"

definition lower_char :: "char \<Rightarrow> char" where
  \<comment> \<open>\<open>str.lower\<close> on one character: A-Z, U+00C0-U+00D6 and U+00D8-U+00DE move up by 32.\<close>
  "lower_char c =
     (let n = (of_char c :: nat)
      in if (65 \<le> n \<and> n \<le> 90) \<or> (192 \<le> n \<and> n \<le> 214) \<or> (216 \<le> n \<and> n \<le> 222)
         then char_of (n + 32) else c)"

definition lower :: "string \<Rightarrow> string" where
  "lower s = map lower_char s"

definition strip :: "string \<Rightarrow> string" where
  "strip s = rev (dropWhile whitespace (rev (dropWhile whitespace s)))"

definition replace_space :: "string \<Rightarrow> string" where
  \<comment> \<open>\<open>.replace(" ", "_")\<close>\<close>
  "replace_space s = map (\<lambda>c. if c = CHR '' '' then CHR ''_'' else c) s"

definition re_d :: "char \<Rightarrow> bool" where
  \<comment> \<open>the class \<open>\d\<close> of \<open>re\<close> on a \<open>str\<close> pattern: decimal digits\<close>
  "re_d c = (let n = (of_char c :: nat) in 48 \<le> n \<and> n \<le> 57)"

definition re_w :: "char \<Rightarrow> bool" where
  \<comment> \<open>the class \<open>\w\<close> of \<open>re\<close> on a \<open>str\<close> pattern: \<open>str.isalnum\<close> or the underscore\<close>
  "re_w c =
     (let n = (of_char c :: nat)
      in (48 \<le> n \<and> n \<le> 57) \<or> (65 \<le> n \<and> n \<le> 90) \<or> n = 95 \<or> (97 \<le> n \<and> n \<le> 122)
         \<or> n = 170 \<or> n = 178 \<or> n = 179 \<or> n = 181 \<or> n = 185 \<or> n = 186
         \<or> (188 \<le> n \<and> n \<le> 190) \<or> (192 \<le> n \<and> n \<le> 214) \<or> (216 \<le> n \<and> n \<le> 246)
         \<or> (248 \<le> n \<and> n \<le> 255))"

definition kept :: "char \<Rightarrow> bool" where
  \<comment> \<open>the characters that \<open>[^\w\d_-]\<close> does not match\<close>
  "kept c = (re_w c \<or> re_d c \<or> c = CHR ''_'' \<or> c = CHR ''-'')"

definition re_sub_unsafe :: "string \<Rightarrow> string" where
  \<comment> \<open>\<open>re.sub(r"[^\w\d_-]", "", name)\<close>\<close>
  "re_sub_unsafe s = filter kept s"

section \<open>Filename codec\<close>

definition safe_name :: "string \<Rightarrow> string" where
  \<comment> \<open>the prefix both workers compute before the cache probe, and the first two lines of
      \<open>sanitize_filename\<close>\<close>
  "safe_name name = re_sub_unsafe (replace_space (strip (lower name)))"

datatype exn = RequestException | HTTPError nat | OSError | ValueError

definition sanitize_filename ::
  "(string \<Rightarrow> exn + string) \<Rightarrow> string \<Rightarrow> string \<Rightarrow> exn + string" where
  \<comment> \<open>\<open>splitext_urlpath url\<close> stands for \<open>os.path.splitext(urlparse(url).path)[-1]\<close>;
      \<open>urlparse\<close> raises \<open>ValueError\<close> on a malformed authority\<close>
  "sanitize_filename splitext_urlpath name url =
     (let name' = re_sub_unsafe (replace_space (strip (lower name)))
      in case splitext_urlpath url of
           Inl e \<Rightarrow> Inl e
         | Inr ext \<Rightarrow> Inr (name' @ (if ext = [] then ''.jpg'' else ext)))"

section \<open>Parsed pages\<close>

text \<open>
  A parsed page is the tree BeautifulSoup builds: a tag has a name, the list of its class
  tokens when it has a \<open>class\<close> attribute (BeautifulSoup keeps that attribute as a list),
  its other attributes, and its children. The root is the document itself.
\<close>

datatype node =
  Tag (tag_name: string) (tag_class: "string list option")
      (tag_attrs: "(string \<times> string) list") (tag_contents: "node list")
| NavigableString string

fun is_tag :: "node \<Rightarrow> bool" where
  "is_tag (Tag n c a ch) = True"
| "is_tag (NavigableString s) = False"

fun descendants :: "node \<Rightarrow> node list" where
  \<comment> \<open>everything below a node, in document order\<close>
  "descendants (Tag n c a ch) = concat (map (\<lambda>x. x # descendants x) ch)"
| "descendants (NavigableString s) = []"

definition find_tag :: "(node \<Rightarrow> bool) \<Rightarrow> node \<Rightarrow> node option" where
  \<comment> \<open>\<open>tag.find(...)\<close>: the first descendant tag the filter accepts\<close>
  "find_tag p t = find (\<lambda>x. is_tag x \<and> p x) (descendants t)"

definition attr_get :: "node \<Rightarrow> string \<Rightarrow> string option" where
  \<comment> \<open>\<open>tag.get(key)\<close>\<close>
  "attr_get t k = map_of (tag_attrs t) k"

definition truthy :: "string option \<Rightarrow> bool" where
  \<comment> \<open>the truth value Python gives an optional string: \<open>None\<close> and \<open>""\<close> are false\<close>
  "truthy v = (case v of None \<Rightarrow> False | Some s \<Rightarrow> s \<noteq> [])"

fun join_space :: "string list \<Rightarrow> string" where
  \<comment> \<open>\<open>" ".join(tokens)\<close>\<close>
  "join_space [] = []"
| "join_space [x] = x"
| "join_space (x # y # ys) = x @ '' '' @ join_space (y # ys)"

definition class_matches :: "(string \<Rightarrow> bool) \<Rightarrow> node \<Rightarrow> bool" where
  \<comment> \<open>a \<open>class_\<close> filter: BeautifulSoup tries every class token, then the tokens joined by
      spaces; a tag with no \<open>class\<close> attribute passes \<open>None\<close> to a function filter and
      matches no string filter, and both filters here reject it\<close>
  "class_matches f t =
     (case tag_class t of
        None \<Rightarrow> False
      | Some toks \<Rightarrow> list_ex f toks \<or> f (join_space toks))"

definition infobox_biota :: "string \<Rightarrow> bool" where
  \<comment> \<open>\<open>lambda c: c and "infobox biota" in c\<close>\<close>
  "infobox_biota c = (c \<noteq> [] \<and> sublist ''infobox biota'' c)"

definition is_infobox :: "node \<Rightarrow> bool" where
  \<comment> \<open>the filter of \<open>soup.find("table", class_=lambda c: c and "infobox biota" in c)\<close>\<close>
  "is_infobox t = (tag_name t = ''table'' \<and> class_matches infobox_biota t)"

definition is_img :: "node \<Rightarrow> bool" where
  \<comment> \<open>the filter of \<open>find("img")\<close>\<close>
  "is_img t = (tag_name t = ''img'')"

definition is_img_with_src :: "node \<Rightarrow> bool" where
  \<comment> \<open>the filter of \<open>find("img", src=True)\<close>: the attribute is there, whatever its value\<close>
  "is_img_with_src t = (tag_name t = ''img'' \<and> attr_get t ''src'' \<noteq> None)"

definition is_file_element_img :: "node \<Rightarrow> bool" where
  \<comment> \<open>the filter of \<open>find("img", class_="mw-file-element")\<close>\<close>
  "is_file_element_img t =
     (tag_name t = ''img'' \<and> class_matches (\<lambda>c. c = ''mw-file-element'') t)"

definition has_typeof :: "string \<Rightarrow> node \<Rightarrow> bool" where
  \<comment> \<open>the filter of \<open>find(attrs={"typeof": v})\<close>\<close>
  "has_typeof v t = (attr_get t ''typeof'' = Some v)"

definition no_src :: "node option \<Rightarrow> bool" where
  \<comment> \<open>\<open>not img_tag or not img_tag.get("src")\<close>\<close>
  "no_src img_tag = (case img_tag of None \<Rightarrow> True | Some i \<Rightarrow> \<not> truthy (attr_get i ''src''))"

section \<open>Image locator of the thread-pool downloader\<close>

definition find_first_content_image :: "node \<Rightarrow> node option" where
  "find_first_content_image soup =
     (let thumb_tag = find_tag (has_typeof ''mw:File/Thumb'') soup;
          thumb_img = (case thumb_tag of None \<Rightarrow> None | Some t \<Rightarrow> find_tag is_img_with_src t)
      in case thumb_img of
           Some img \<Rightarrow> Some img
         | None \<Rightarrow>
            (let file_tag = find_tag (has_typeof ''mw:File'') soup;
                 file_img = (case file_tag of None \<Rightarrow> None | Some t \<Rightarrow> find_tag is_img_with_src t)
             in case file_img of
                  Some img \<Rightarrow> Some img
                | None \<Rightarrow>
                   (let img = find_tag is_file_element_img soup
                    in if \<not> no_src img then img else None)))"

definition entry_img_tag :: "node \<Rightarrow> node option" where
  \<comment> \<open>\<open>img_tag\<close> in \<open>download_image_from_entry\<close> after the infobox step and the fallback\<close>
  "entry_img_tag soup =
     (let infobox = find_tag is_infobox soup;
          img_tag = (case infobox of None \<Rightarrow> None | Some t \<Rightarrow> find_tag is_img t)
      in if no_src img_tag then find_first_content_image soup else img_tag)"

definition entry_img_url :: "string \<Rightarrow> string" where
  \<comment> \<open>\<open>img_url\<close> in \<open>download_image_from_entry\<close>, from \<open>img_tag["src"]\<close>\<close>
  "entry_img_url src =
     (if prefix ''//'' src then ''https:'' @ src
      else if prefix ''/'' src then ''https://en.wikipedia.org'' @ src
      else src)"

section \<open>Image locator of the async downloader\<close>

definition extract_image_url :: "node \<Rightarrow> string option" where
  "extract_image_url soup =
     (let infobox = find_tag is_infobox soup;
          img_tag = (case infobox of
                       Some t \<Rightarrow> find_tag is_img t
                     | None \<Rightarrow> find_tag is_file_element_img soup)
      in if \<not> no_src img_tag
         then (case attr_get (the img_tag) ''src'' of
                 None \<Rightarrow> None
               | Some src \<Rightarrow>
                  if prefix ''//'' src then Some (''https:'' @ src)
                  else if prefix ''/'' src then Some (''https://en.wikipedia.org'' @ src)
                  else Some src)
         else None)"

section \<open>Entries and the world around a worker\<close>

record entry =
  name :: "string option"
  wiki_url :: "string option"
  local_image :: "string option"

definition get_name :: "entry \<Rightarrow> string" where
  \<comment> \<open>\<open>entry.get("name", "unknown")\<close>\<close>
  "get_name e = (case name e of None \<Rightarrow> ''unknown'' | Some n \<Rightarrow> n)"

definition path_join :: "string \<Rightarrow> string \<Rightarrow> string" where
  \<comment> \<open>\<open>os.path.join\<close> of \<open>posixpath\<close>, two arguments\<close>
  "path_join a b =
     (if prefix ''/'' b then b
      else if a = [] \<or> suffix ''/'' a then a @ b
      else a @ ''/'' @ b)"

record response =
  status_code :: nat
  resp_text :: string
  chunks :: "string list"
  stream_error :: "exn option"

text \<open>
  What the outside world answers during one worker invocation: the directory listing at
  the cache probe, whether a path exists at the later re-check, the two HTTP requests,
  whether the destination can be opened for writing, and the two library functions the
  model does not open (the HTML parser and the URL splitter). A response carries its
  status, its text, the chunks of its body and the exception that ends the stream early,
  if any.
\<close>

record env =
  listdir :: "exn + string list"
  path_exists :: "string \<Rightarrow> bool"
  fetch_page :: "string \<Rightarrow> exn + response"
  fetch_image :: "string \<Rightarrow> exn + response"
  open_wb :: "string \<Rightarrow> exn option"
  parse :: "string \<Rightarrow> node"
  splitext_urlpath :: "string \<Rightarrow> exn + string"

datatype exit_point =
  NoWikiUrl | AlreadyExists string | PageFailed | NoImageFound | CachedPostScrape
| Saved | DownloadFailed | ErrorDownloading exn

text \<open>
  What one worker invocation leaves behind: the entry as updated, the URLs requested in
  order, the file written (path and bytes, also a partial one), and the return statement
  taken, named after the log line written there.
\<close>

record result =
  updated :: entry
  requests :: "string list"
  written :: "(string \<times> string) option"
  exit_at :: exit_point

section \<open>Worker of the thread-pool downloader\<close>

definition raises_for_status :: "response \<Rightarrow> bool" where
  \<comment> \<open>\<open>raise_for_status\<close> raises \<open>HTTPError\<close> on 4xx and 5xx\<close>
  "raises_for_status r = (400 \<le> status_code r \<and> status_code r < 600)"

definition except_Exception ::
  "entry \<Rightarrow> string list \<Rightarrow> (string \<times> string) option \<Rightarrow> exn \<Rightarrow> exn + result" where
  \<comment> \<open>the handler \<open>except Exception as e\<close>: log and return\<close>
  "except_Exception e reqs wr x =
     Inr \<lparr>updated = e, requests = reqs, written = wr, exit_at = ErrorDownloading x\<rparr>"

definition get_and_raise_for_status ::
  "(string \<Rightarrow> exn + response) \<Rightarrow> string \<Rightarrow> exn + response" where
  \<comment> \<open>\<open>requests.get(url, ...)\<close> followed by \<open>raise_for_status()\<close>\<close>
  "get_and_raise_for_status fetch url =
     (case fetch url of
        Inl x \<Rightarrow> Inl x
      | Inr res \<Rightarrow> if raises_for_status res then Inl (HTTPError (status_code res)) else Inr res)"

definition stream_to_file ::
  "env \<Rightarrow> string \<Rightarrow> string \<Rightarrow> exn option \<times> (string \<times> string) option" where
  \<comment> \<open>the block \<open>with requests.get(img_url, stream=True, ...) as r\<close>: the exception it
      raises, if any, and the file it wrote; empty chunks are skipped\<close>
  "stream_to_file w img_url local_path =
     (case get_and_raise_for_status (fetch_image w) img_url of
        Inl x \<Rightarrow> (Some x, None)
      | Inr r \<Rightarrow>
         (case open_wb w local_path of
            Some x \<Rightarrow> (Some x, None)
          | None \<Rightarrow>
             (stream_error r, Some (local_path, concat (filter (\<lambda>c. c \<noteq> []) (chunks r))))))"

definition download_image_from_entry :: "env \<Rightarrow> string \<Rightarrow> entry \<Rightarrow> exn + result" where
  "download_image_from_entry w image_dir e =
     (let url = wiki_url e; nm = get_name e
      in if \<not> truthy url
         then Inr \<lparr>updated = e, requests = [], written = None, exit_at = NoWikiUrl\<rparr>
         else
          (case listdir w of
             Inl x \<Rightarrow> Inl x
           | Inr files \<Rightarrow>
              (let safe = re_sub_unsafe (replace_space (strip (lower nm)));
                   existing_files = filter (prefix safe) files
               in case existing_files of
                    f # fs \<Rightarrow>
                      Inr \<lparr>updated = e\<lparr>local_image := Some (path_join image_dir f)\<rparr>,
                           requests = [], written = None, exit_at = AlreadyExists f\<rparr>
                  | [] \<Rightarrow>
                     (case get_and_raise_for_status (fetch_page w) (the url) of
                        Inl x \<Rightarrow> except_Exception e [the url] None x
                      | Inr res \<Rightarrow>
                         (let img_tag = entry_img_tag (parse w (resp_text res))
                          in if no_src img_tag
                             then Inr \<lparr>updated = e, requests = [the url], written = None,
                                       exit_at = NoImageFound\<rparr>
                             else
                              (let img_url = entry_img_url (the (attr_get (the img_tag) ''src''))
                               in case sanitize_filename (splitext_urlpath w) nm img_url of
                                    Inl x \<Rightarrow> except_Exception e [the url] None x
                                  | Inr filename \<Rightarrow>
                                     (let local_path = path_join image_dir filename
                                      in case stream_to_file w img_url local_path of
                                           (Some x, wr) \<Rightarrow>
                                             except_Exception e [the url, img_url] wr x
                                         | (None, wr) \<Rightarrow>
                                             Inr \<lparr>updated = e\<lparr>local_image := Some local_path\<rparr>,
                                                  requests = [the url, img_url],
                                                  written = wr, exit_at = Saved\<rparr>)))))))"

section \<open>Worker of the async downloader\<close>

definition fetch_html :: "env \<Rightarrow> string \<Rightarrow> string option" where
  "fetch_html w url =
     (case fetch_page w url of
        Inl x \<Rightarrow> None
      | Inr resp \<Rightarrow> if status_code resp = 200 then Some (resp_text resp) else None)"

definition download_image :: "env \<Rightarrow> string \<Rightarrow> string \<Rightarrow> bool \<times> (string \<times> string) option" where
  \<comment> \<open>the answer of \<open>download_image\<close> and the file it wrote\<close>
  "download_image w url path =
     (case fetch_image w url of
        Inl x \<Rightarrow> (False, None)
      | Inr resp \<Rightarrow>
         if status_code resp \<noteq> 200 then (False, None)
         else
          (case open_wb w path of
             Some x \<Rightarrow> (False, None)
           | None \<Rightarrow>
              (case stream_error resp of
                 Some x \<Rightarrow> (False, Some (path, concat (chunks resp)))
               | None \<Rightarrow> (True, Some (path, concat (chunks resp))))))"

definition process_entry :: "env \<Rightarrow> string \<Rightarrow> entry \<Rightarrow> exn + result" where
  "process_entry w image_dir e =
     (let url = wiki_url e; nm = get_name e
      in if \<not> truthy url
         then Inr \<lparr>updated = e, requests = [], written = None, exit_at = NoWikiUrl\<rparr>
         else
          (case listdir w of
             Inl x \<Rightarrow> Inl x
           | Inr files \<Rightarrow>
              (let safe = re_sub_unsafe (replace_space (strip (lower nm)));
                   existing_files = filter (prefix safe) files
               in case existing_files of
                    f # fs \<Rightarrow>
                      Inr \<lparr>updated = e\<lparr>local_image := Some (path_join image_dir f)\<rparr>,
                           requests = [], written = None, exit_at = AlreadyExists f\<rparr>
                  | [] \<Rightarrow>
                     (let html = fetch_html w (the url)
                      in if \<not> truthy html
                         then Inr \<lparr>updated = e, requests = [the url], written = None,
                                   exit_at = PageFailed\<rparr>
                         else
                          (let img_url = extract_image_url (parse w (the html))
                           in if \<not> truthy img_url
                              then Inr \<lparr>updated = e, requests = [the url], written = None,
                                        exit_at = NoImageFound\<rparr>
                              else
                               (case sanitize_filename (splitext_urlpath w) nm (the img_url) of
                                  Inl x \<Rightarrow> Inl x
                                | Inr filename \<Rightarrow>
                                   (let local_path = path_join image_dir filename
                                    in if path_exists w local_path
                                       then Inr \<lparr>updated = e\<lparr>local_image := Some local_path\<rparr>,
                                                 requests = [the url], written = None,
                                                 exit_at = CachedPostScrape\<rparr>
                                       else
                                        (case download_image w (the img_url) local_path of
                                           (True, wr) \<Rightarrow>
                                             Inr \<lparr>updated = e\<lparr>local_image := Some local_path\<rparr>,
                                                  requests = [the url, the img_url],
                                                  written = wr, exit_at = Saved\<rparr>
                                         | (False, wr) \<Rightarrow>
                                             Inr \<lparr>updated = e, requests = [the url, the img_url],
                                                  written = wr, exit_at = DownloadFailed\<rparr>))))))))"

section \<open>Batches\<close>

text \<open>
  The mapping from a category to its entries is a dict, read in insertion order; the two
  definitions are the list \<open>entries\<close> each \<open>download_images\<close> builds and hands, entry
  by entry, to its worker.
\<close>

type_synonym mapping = "(string \<times> entry list) list"

definition download_images_entries :: "mapping \<Rightarrow> entry list" where
  \<comment> \<open>thread pool: \<open>[entry for sublist in mapping.values() for entry in sublist]\<close>\<close>
  "download_images_entries m = concat (map (\<lambda>sublist. sublist) (map snd m))"

definition async_download_images_entries :: "mapping \<Rightarrow> entry list" where
  \<comment> \<open>async: the same comprehension with \<open>if entry.get("wiki_url")\<close>\<close>
  "async_download_images_entries m =
     concat (map (\<lambda>sublist. filter (\<lambda>e. truthy (wiki_url e)) sublist) (map snd m))"

section \<open>The filename codec as the specification words it\<close>

definition ascii_permitted :: "char \<Rightarrow> bool" where
  \<comment> \<open>a-z, 0-9, underscore, hyphen\<close>
  "ascii_permitted c =
     (let n = (of_char c :: nat)
      in (97 \<le> n \<and> n \<le> 122) \<or> (48 \<le> n \<and> n \<le> 57) \<or> n = 95 \<or> n = 45)"

text \<open>
  The transform as the specification words it, for comparison with \<open>safe_name\<close>: lower-case,
  trim, replace every whitespace run by one separator, strip the characters outside the
  permitted set.
\<close>

fun collapse_ws :: "bool \<Rightarrow> string \<Rightarrow> string" where
  "collapse_ws in_run [] = []"
| "collapse_ws in_run (c # cs) =
     (if whitespace c
      then (if in_run then collapse_ws True cs else CHR ''_'' # collapse_ws True cs)
      else c # collapse_ws False cs)"

definition spec_sanitize_prefix :: "string \<Rightarrow> string" where
  "spec_sanitize_prefix n = filter kept (collapse_ws False (strip (lower n)))"

section \<open>Example inputs\<close>

definition example_page :: node where
  \<comment> \<open>the page of the repository's end-to-end test, as a tree\<close>
  "example_page =
     Tag ''[document]'' None []
       [Tag ''table'' (Some [''infobox'', ''biota'']) []
          [Tag ''tr'' None []
             [Tag ''td'' None []
                [Tag ''img'' None [(''src'', ''//upload.wikimedia.org/fake_image.jpg'')] []]]]]"

definition example_env :: env where
  \<comment> \<open>an empty cache directory, and a network that answers every request\<close>
  "example_env =
     \<lparr>listdir = Inr [],
      path_exists = (\<lambda>p. False),
      fetch_page = (\<lambda>u. Inr \<lparr>status_code = 200, resp_text = ''<html>'', chunks = [],
                             stream_error = None\<rparr>),
      fetch_image = (\<lambda>u. Inr \<lparr>status_code = 200, resp_text = [], chunks = [''fakeimagedata''],
                              stream_error = None\<rparr>),
      open_wb = (\<lambda>p. None),
      parse = (\<lambda>t. example_page),
      splitext_urlpath = (\<lambda>u. Inr ''.jpg'')\<rparr>"

definition example_entry :: entry where
  "example_entry =
     \<lparr>name = Some ''Fake Animal'',
      wiki_url = Some ''https://en.wikipedia.org/wiki/Fake_Animal'',
      local_image = None\<rparr>"

section \<open>The locator as the specification words it\<close>

text \<open>
  For comparison with the two locators of the source. The four rules each name a candidate
  image; a rule hits when its candidate carries a non-empty reference; \<open>spec_locate\<close> is
  the reference of the first rule that hits. \<open>spec_normalize\<close> is the normalization, with
  the host of the source page as a parameter, and \<open>spec_source_host\<close> reads that host off
  a URL.
\<close>

definition spec_normalize :: "string \<Rightarrow> string \<Rightarrow> string" where
  "spec_normalize source_host ref =
     (if prefix ''//'' ref then ''https:'' @ ref
      else if prefix ''/'' ref then ''https://'' @ source_host @ ref
      else ref)"

fun after_scheme :: "string \<Rightarrow> string" where
  "after_scheme (a # b # c # rest) =
     (if [a, b, c] = ''://'' then rest else after_scheme (b # c # rest))"
| "after_scheme s = []"

definition spec_source_host :: "string \<Rightarrow> string" where
  "spec_source_host url = takeWhile (\<lambda>c. c \<noteq> CHR ''/'') (after_scheme url)"

definition spec_rule1 :: "node \<Rightarrow> node option" where
  "spec_rule1 soup = (case find_tag is_infobox soup of None \<Rightarrow> None | Some t \<Rightarrow> find_tag is_img t)"

definition spec_rule2 :: "node \<Rightarrow> node option" where
  "spec_rule2 soup =
     (case find_tag (has_typeof ''mw:File/Thumb'') soup of
        None \<Rightarrow> None
      | Some t \<Rightarrow> find_tag is_img_with_src t)"

definition spec_rule3 :: "node \<Rightarrow> node option" where
  "spec_rule3 soup =
     (case find_tag (has_typeof ''mw:File'') soup of
        None \<Rightarrow> None
      | Some t \<Rightarrow> find_tag is_img_with_src t)"

definition spec_rule4 :: "node \<Rightarrow> node option" where
  "spec_rule4 soup = find_tag is_file_element_img soup"

definition spec_hit :: "node option \<Rightarrow> string option" where
  "spec_hit img =
     (case img of
        None \<Rightarrow> None
      | Some i \<Rightarrow> (case attr_get i ''src'' of
                    None \<Rightarrow> None
                  | Some src \<Rightarrow> if src = [] then None else Some src))"

fun first_hit :: "string option list \<Rightarrow> string option" where
  "first_hit [] = None"
| "first_hit (Some x # rest) = Some x"
| "first_hit (None # rest) = first_hit rest"

definition spec_locate :: "node \<Rightarrow> string option" where
  "spec_locate soup =
     first_hit [spec_hit (spec_rule1 soup), spec_hit (spec_rule2 soup),
                spec_hit (spec_rule3 soup), spec_hit (spec_rule4 soup)]"

definition async_rules :: "node \<Rightarrow> string option" where
  \<comment> \<open>rule 1 when the page has an infobox panel, rule 4 when it has none\<close>
  "async_rules soup =
     (case find_tag is_infobox soup of
        Some t \<Rightarrow> spec_hit (spec_rule1 soup)
      | None \<Rightarrow> spec_hit (spec_rule4 soup))"

section \<open>More example inputs\<close>

definition infobox_without_image_page :: node where
  "infobox_without_image_page =
     Tag ''[document]'' None []
       [Tag ''table'' (Some [''infobox'', ''biota'']) []
          [Tag ''tr'' None [] [Tag ''td'' None [] [NavigableString ''Vulpes vulpes'']]],
        Tag ''figure'' None [(''typeof'', ''mw:File/Thumb'')]
          [Tag ''a'' (Some [''mw-file-description'']) [(''href'', ''/wiki/File:Fox.jpg'')]
             [Tag ''img'' (Some [''mw-file-element''])
                [(''src'', ''//upload.wikimedia.org/fox.jpg'')] []]]]"

definition page_down_env :: env where
  "page_down_env = example_env\<lparr>fetch_page := (\<lambda>u. Inl RequestException)\<rparr>"

definition no_image_env :: env where
  "no_image_env = example_env\<lparr>parse := (\<lambda>t. Tag ''[document]'' None [] [])\<rparr>"

definition image_down_env :: env where
  "image_down_env =
     example_env\<lparr>fetch_image := (\<lambda>u. Inr \<lparr>status_code = 404, resp_text = ''Not Found'',
                                              chunks = [], stream_error = None\<rparr>)\<rparr>"

definition bad_url_env :: env where
  \<comment> \<open>\<open>urlparse\<close> raises on the located image URL\<close>
  "bad_url_env = example_env\<lparr>splitext_urlpath := (\<lambda>u. Inl ValueError)\<rparr>"

definition raced_env :: env where
  "raced_env = example_env\<lparr>path_exists := (\<lambda>p. True)\<rparr>"

definition example_url :: string where
  "example_url = ''https://en.wikipedia.org/wiki/Fake_Animal''"

definition example_img_url :: string where
  "example_img_url = ''https://upload.wikimedia.org/fake_image.jpg''"

definition example_response :: response where
  "example_response =
     \<lparr>status_code = 200, resp_text = ''<html>'', chunks = [], stream_error = None\<rparr>"

section \<open>Properties of the filename codec\<close>

lemma of_char_lower_char:
  "(of_char (lower_char c) :: nat) =
     (let n = (of_char c :: nat)
      in if (65 \<le> n \<and> n \<le> 90) \<or> (192 \<le> n \<and> n \<le> 214) \<or> (216 \<le> n \<and> n \<le> 222)
         then n + 32 else n)"
  by (simp add: lower_char_def Let_def)

lemma lower_char_idem: "lower_char (lower_char c) = lower_char c"
proof -
  have "(of_char (lower_char (lower_char c)) :: nat) = of_char (lower_char c)"
    by (simp add: of_char_lower_char Let_def)
  then show ?thesis by simp
qed

lemma whitespace_lower_char: "whitespace (lower_char c) = whitespace c"
  by (auto simp: whitespace_def of_char_lower_char Let_def)

lemma kept_not_whitespace: "kept c \<Longrightarrow> \<not> whitespace c"
proof -
  have u: "(of_char (CHR ''_'') :: nat) = 95" and h: "(of_char (CHR ''-'') :: nat) = 45"
    by simp_all
  assume "kept c"
  then consider "re_w c" | "re_d c" | "c = CHR ''_''" | "c = CHR ''-''"
    by (auto simp: kept_def)
  then show ?thesis
  proof cases
    case 1 then show ?thesis by (auto simp: re_w_def whitespace_def Let_def)
  next
    case 2 then show ?thesis by (auto simp: re_d_def whitespace_def Let_def)
  next
    case 3 then show ?thesis by (simp add: whitespace_def)
  next
    case 4 then show ?thesis by (simp add: whitespace_def)
  qed
qed

lemma dropWhile_none:
  assumes "\<forall>c\<in>set s. \<not> P c"
  shows "dropWhile P s = s"
  using assms by (cases s) auto

lemma strip_no_whitespace:
  assumes "\<forall>c\<in>set s. \<not> whitespace c"
  shows "strip s = s"
proof -
  have a: "dropWhile whitespace s = s"
    using assms by (rule dropWhile_none)
  have "\<forall>c\<in>set (rev s). \<not> whitespace c"
    using assms by simp
  then have b: "dropWhile whitespace (rev s) = rev s"
    by (rule dropWhile_none)
  show ?thesis by (simp add: strip_def a b)
qed

lemma set_strip: "set (strip s) \<subseteq> set s"
proof
  fix x
  assume "x \<in> set (strip s)"
  then have "x \<in> set (dropWhile whitespace (rev (dropWhile whitespace s)))"
    by (simp add: strip_def)
  then have "x \<in> set (rev (dropWhile whitespace s))"
    by (rule set_dropWhileD)
  then have "x \<in> set (dropWhile whitespace s)"
    by simp
  then show "x \<in> set s"
    by (rule set_dropWhileD)
qed

lemma kept_fixed_safe_name:
  assumes "\<forall>c\<in>set s. kept c \<and> lower_char c = c"
  shows "safe_name s = s"
proof -
  have l: "lower s = s"
    using assms by (simp add: lower_def map_idI)
  have "\<forall>c\<in>set s. \<not> whitespace c"
    using assms kept_not_whitespace by blast
  then have st: "strip s = s" and "\<forall>c\<in>set s. c \<noteq> CHR '' ''"
    by (auto simp: strip_no_whitespace whitespace_def)
  then have r: "replace_space s = s"
    by (simp add: replace_space_def map_idI)
  have f: "re_sub_unsafe s = s"
    using assms by (simp add: re_sub_unsafe_def)
  show ?thesis by (simp add: safe_name_def l st r f)
qed

lemma lower_char_underscore: "lower_char (CHR ''_'') = CHR ''_''"
  by (simp add: lower_char_def)

lemma safe_name_chars:
  assumes "c \<in> set (safe_name n)"
  shows "kept c \<and> lower_char c = c"
proof -
  from assms have k: "kept c" and "c \<in> set (replace_space (strip (lower n)))"
    by (simp_all add: safe_name_def re_sub_unsafe_def)
  then obtain d where d: "d \<in> set (strip (lower n))"
    and c: "c = (if d = CHR '' '' then CHR ''_'' else d)"
    by (auto simp: replace_space_def)
  have "set (strip (lower n)) \<subseteq> set (lower n)"
    by (rule set_strip)
  with d obtain e where "d = lower_char e"
    by (auto simp: lower_def)
  then have "lower_char d = d"
    by (simp add: lower_char_idem)
  with c have "lower_char c = c"
    by (simp add: lower_char_underscore)
  with k show ?thesis by simp
qed

lemma kept_lower_ascii:
  assumes "kept c" "lower_char c = c" "(of_char c :: nat) < 128"
  shows "ascii_permitted c"
proof -
  have u: "(of_char (CHR ''_'') :: nat) = 95" and h: "(of_char (CHR ''-'') :: nat) = 45"
    by simp_all
  have "(of_char (lower_char c) :: nat) = of_char c"
    using assms(2) by simp
  then have nu: "\<not> (65 \<le> (of_char c :: nat) \<and> (of_char c :: nat) \<le> 90)"
    by (auto simp: of_char_lower_char Let_def)
  from assms(1) consider "re_w c" | "re_d c" | "c = CHR ''_''" | "c = CHR ''-''"
    by (auto simp: kept_def)
  then show ?thesis
  proof cases
    case 1 with nu assms(3) show ?thesis by (auto simp: re_w_def ascii_permitted_def Let_def)
  next
    case 2 then show ?thesis by (auto simp: re_d_def ascii_permitted_def Let_def)
  next
    case 3 then show ?thesis by (simp add: ascii_permitted_def)
  next
    case 4 then show ?thesis by (simp add: ascii_permitted_def)
  qed
qed

lemma safe_name_red_fox: "safe_name ''Red  Fox!'' = ''red__fox''"
  by code_simp

text \<open>The repository's own test of \<open>sanitize_filename\<close>, and the default extension.\<close>

lemma sanitize_filename_basic:
  "sanitize_filename (\<lambda>u. Inr ''.jpg'') ''Red Fox'' ''https://upload.wikimedia.org/image.jpg''
     = Inr ''red_fox.jpg''
   \<and> sanitize_filename (\<lambda>u. Inr []) ''Red Fox'' ''https://x/y/image'' = Inr ''red_fox.jpg''"
  by code_simp

text \<open>
  C9. Sanitizing is idempotent, and a sanitized name holds only characters that the
  pattern keeps and that lower-casing leaves alone; among the ASCII characters these are
  a-z, 0-9, the underscore and the hyphen.
\<close>

theorem safe_name_idempotent_permitted:
  "safe_name (safe_name n) = safe_name n
   \<and> set (safe_name n) \<subseteq> {c. kept c \<and> lower_char c = c}
   \<and> set (safe_name n) \<inter> {c. (of_char c :: nat) < 128} \<subseteq> {c. ascii_permitted c}"
proof -
  have a: "\<forall>c\<in>set (safe_name n). kept c \<and> lower_char c = c"
    using safe_name_chars by blast
  then have "safe_name (safe_name n) = safe_name n"
    by (rule kept_fixed_safe_name)
  moreover have "set (safe_name n) \<subseteq> {c. kept c \<and> lower_char c = c}"
    using a by blast
  moreover have "set (safe_name n) \<inter> {c. (of_char c :: nat) < 128} \<subseteq> {c. ascii_permitted c}"
    using a kept_lower_ascii by blast
  ultimately show ?thesis by simp
qed

theorem safe_name_idempotent_permitted_witness:
  "safe_name ''red__fox'' = ''red__fox''
   \<and> set ''red__fox'' \<subseteq> {c. kept c \<and> lower_char c = c}
   \<and> set ''red__fox'' \<inter> {c. (of_char c :: nat) < 128} \<subseteq> {c. ascii_permitted c}"
  using safe_name_idempotent_permitted [of "''Red  Fox!''"]
  unfolding safe_name_red_fox .

lemma strip_ws_left:
  assumes "\<forall>c\<in>set w. whitespace c"
  shows "strip (w @ s) = strip s"
  using assms by (simp add: strip_def dropWhile_append2)

lemma lstrip_rstrip_nonws:
  assumes "s \<noteq> []" "\<not> whitespace (last s)"
  shows "rev (dropWhile whitespace (rev s)) = s"
proof -
  from assms obtain x xs where r: "rev s = x # xs" and "\<not> whitespace x"
    by (cases "rev s") (auto simp: last_rev [symmetric] simp del: last_rev)
  then have "dropWhile whitespace (rev s) = rev s"
    by simp
  then show ?thesis by simp
qed

lemma strip_ws_right:
  assumes "\<forall>c\<in>set w. whitespace c"
  shows "strip (s @ w) = strip s"
proof (cases "\<forall>c\<in>set s. whitespace c")
  case True
  then have "\<forall>c\<in>set (s @ w). whitespace c"
    using assms by auto
  then have a: "dropWhile whitespace (s @ w) = []"
    unfolding dropWhile_eq_Nil_conv .
  have b: "dropWhile whitespace s = []"
    using True unfolding dropWhile_eq_Nil_conv .
  show ?thesis unfolding strip_def a b ..
next
  case False
  then obtain x where "x \<in> set s" "\<not> whitespace x" by blast
  then have d: "dropWhile whitespace (s @ w) = dropWhile whitespace s @ w"
    by (simp add: dropWhile_append1)
  have "dropWhile whitespace (rev w @ rev (dropWhile whitespace s))
      = dropWhile whitespace (rev (dropWhile whitespace s))"
    by (rule dropWhile_append2) (use assms in auto)
  then have e: "dropWhile whitespace (rev (dropWhile whitespace s @ w))
      = dropWhile whitespace (rev (dropWhile whitespace s))"
    by simp
  show ?thesis unfolding strip_def d e ..
qed

lemma strip_inner:
  assumes "u \<noteq> []" "\<not> whitespace (last u)" "v \<noteq> []" "\<not> whitespace (hd v)"
  shows "strip (u @ w @ v) = strip u @ w @ strip v"
proof -
  have lu: "last u \<in> set u" using assms(1) by simp
  have hv: "hd v \<in> set v" using assms(3) by simp
  have du: "dropWhile whitespace u \<noteq> []"
    using lu assms(2) by (auto simp: dropWhile_eq_Nil_conv)
  have "last (dropWhile whitespace u) = last u"
    using du by (metis last_appendR takeWhile_dropWhile_id)
  then have su: "strip u = dropWhile whitespace u"
    using du assms(2) by (simp add: strip_def lstrip_rstrip_nonws)
  have dv: "dropWhile whitespace v = v"
    using assms(3,4) by (cases v) auto
  have l: "dropWhile whitespace (u @ w @ v) = dropWhile whitespace u @ w @ v"
    using lu assms(2) by (simp add: dropWhile_append1)
  have "hd v \<in> set (rev v)" using hv by simp
  then have r: "dropWhile whitespace (rev v @ rev w @ rev (dropWhile whitespace u))
      = dropWhile whitespace (rev v) @ rev w @ rev (dropWhile whitespace u)"
    using assms(4) by (simp add: dropWhile_append1)
  have sv: "strip v = rev (dropWhile whitespace (rev v))"
    by (simp add: strip_def dv)
  have "strip (u @ w @ v) = dropWhile whitespace u @ w @ rev (dropWhile whitespace (rev v))"
    by (simp add: strip_def l r)
  then show ?thesis
    by (simp add: su sv)
qed

lemma lower_append: "lower (a @ b) = lower a @ lower b"
  by (simp add: lower_def)

lemma lower_ws: "\<forall>c\<in>set w. whitespace c \<Longrightarrow> \<forall>c\<in>set (lower w). whitespace c"
  by (simp add: lower_def whitespace_lower_char)

lemma sanitize_ws_run:
  assumes "\<forall>c\<in>set w. whitespace c"
  shows "re_sub_unsafe (replace_space (lower w)) = replicate (count_list w (CHR '' '')) (CHR ''_'')"
  using assms
proof (induction w)
  case Nil
  then show ?case by (simp add: re_sub_unsafe_def replace_space_def lower_def)
next
  case (Cons c w)
  then have ih: "filter kept (map (\<lambda>c. if c = CHR '' '' then CHR ''_'' else c) (map lower_char w))
      = replicate (count_list w (CHR '' '')) (CHR ''_'')"
    by (simp add: re_sub_unsafe_def replace_space_def lower_def)
  have ku: "kept (CHR ''_'')" by (simp add: kept_def)
  have wc: "whitespace c" using Cons.prems by simp
  show ?case
  proof (cases "c = CHR '' ''")
    case True
    have "lower_char (CHR '' '') = CHR '' ''" by (simp add: lower_char_def)
    with True ih ku show ?thesis
      by (simp add: re_sub_unsafe_def replace_space_def lower_def)
  next
    case False
    have "whitespace (lower_char c)" using wc by (simp add: whitespace_lower_char)
    then have nk: "\<not> kept (lower_char c)" using kept_not_whitespace by blast
    have "(of_char (lower_char c) :: nat) = of_char c"
      using wc by (auto simp: of_char_lower_char whitespace_def Let_def)
    then have "lower_char c = c" by simp
    with False nk ih show ?thesis
      by (simp add: re_sub_unsafe_def replace_space_def lower_def)
  qed
qed

text \<open>
  C8 as stated fails: a run of two spaces gives two underscores, while the transform of
  the specification's words gives one.
\<close>

theorem safe_name_run_counterexample:
  "safe_name ''Red  Fox'' = ''red__fox'' \<and> spec_sanitize_prefix ''Red  Fox'' = ''red_fox''"
  by code_simp

text \<open>
  C8, amended. \<open>safe_name\<close> trims leading and trailing whitespace and leaves only
  characters that the pattern keeps and that are their own lower case; in a run \<open>w\<close> of
  whitespace between two non-whitespace characters every space becomes one underscore and
  every other whitespace character is deleted, so that a run of \<open>k\<close> spaces gives \<open>k\<close>
  underscores.
\<close>

theorem safe_name_whitespace:
  assumes "\<forall>c\<in>set w. whitespace c"
  shows "safe_name (w @ n) = safe_name n \<and> safe_name (n @ w) = safe_name n
    \<and> set (safe_name n) \<subseteq> {c. kept c \<and> lower_char c = c}
    \<and> (u \<noteq> [] \<and> \<not> whitespace (last u) \<and> v \<noteq> [] \<and> \<not> whitespace (hd v) \<longrightarrow>
         safe_name (u @ w @ v)
           = safe_name u @ replicate (count_list w (CHR '' '')) (CHR ''_'') @ safe_name v)"
proof -
  have lw: "\<forall>c\<in>set (lower w). whitespace c"
    using assms by (rule lower_ws)
  have a: "safe_name (w @ n) = safe_name n"
    using lw by (simp add: safe_name_def lower_append strip_ws_left)
  have b: "safe_name (n @ w) = safe_name n"
    using lw by (simp add: safe_name_def lower_append strip_ws_right)
  have c: "safe_name (u @ w @ v)
           = safe_name u @ replicate (count_list w (CHR '' '')) (CHR ''_'') @ safe_name v"
    if h: "u \<noteq> []" "\<not> whitespace (last u)" "v \<noteq> []" "\<not> whitespace (hd v)"
  proof -
    have 1: "lower u \<noteq> []" "lower v \<noteq> []" using h by (simp_all add: lower_def)
    have 2: "\<not> whitespace (last (lower u))"
      using h by (simp add: lower_def last_map whitespace_lower_char)
    have 3: "\<not> whitespace (hd (lower v))"
      using h by (simp add: lower_def hd_map whitespace_lower_char)
    have "strip (lower u @ lower w @ lower v) = strip (lower u) @ lower w @ strip (lower v)"
      using 1 2 3 by (simp add: strip_inner)
    then have "safe_name (u @ w @ v)
        = re_sub_unsafe (replace_space (strip (lower u)))
          @ re_sub_unsafe (replace_space (lower w))
          @ re_sub_unsafe (replace_space (strip (lower v)))"
      by (simp add: safe_name_def lower_append re_sub_unsafe_def replace_space_def)
    then show ?thesis
      using assms by (simp add: sanitize_ws_run safe_name_def)
  qed
  have k: "set (safe_name n) \<subseteq> {c. kept c \<and> lower_char c = c}"
    using safe_name_chars by blast
  from a b c k show ?thesis by blast
qed


theorem safe_name_whitespace_witness:
  "whitespace (CHR '' '') \<and> \<not> whitespace (last ''Red'') \<and> \<not> whitespace (hd ''Fox'')
   \<and> safe_name (''  '' @ ''Red'') = safe_name ''Red''
   \<and> safe_name (''Red'' @ ''  '') = safe_name ''Red''
   \<and> set (safe_name ''Red'') \<subseteq> {c. kept c \<and> lower_char c = c}
   \<and> safe_name (''Red'' @ ''  '' @ ''Fox'') = safe_name ''Red'' @ ''__'' @ safe_name ''Fox''"
proof -
  have w: "\<forall>c\<in>set ''  ''. whitespace c"
    by (simp add: whitespace_def)
  have h: "\<not> whitespace (last ''Red'') \<and> \<not> whitespace (hd ''Fox'')"
    by (simp add: whitespace_def)
  have r: "replicate (count_list ''  '' (CHR '' '')) (CHR ''_'') = ''__''"
    by (simp add: numeral_2_eq_2)
  show ?thesis
    using safe_name_whitespace [OF w, where n = "''Red''" and u = "''Red''" and v = "''Fox''"] w h
    unfolding r by simp
qed

section \<open>Cache probe\<close>

lemma find_filter_Cons:
  "find P xs = Some x \<Longrightarrow> \<exists>ys. filter P xs = x # ys"
  by (induction xs) (auto split: if_splits)

lemma download_image_from_entry_hit:
  assumes "truthy (wiki_url e)" "listdir w = Inr files"
    "filter (prefix (safe_name (get_name e))) files = f # fs"
  shows "download_image_from_entry w d e =
     Inr \<lparr>updated = e\<lparr>local_image := Some (path_join d f)\<rparr>,
          requests = [], written = None, exit_at = AlreadyExists f\<rparr>"
  using assms by (simp add: download_image_from_entry_def safe_name_def Let_def)

lemma process_entry_hit:
  assumes "truthy (wiki_url e)" "listdir w = Inr files"
    "filter (prefix (safe_name (get_name e))) files = f # fs"
  shows "process_entry w d e =
     Inr \<lparr>updated = e\<lparr>local_image := Some (path_join d f)\<rparr>,
          requests = [], written = None, exit_at = AlreadyExists f\<rparr>"
  using assms by (simp add: process_entry_def safe_name_def Let_def)

text \<open>
  C1. When the entry has a source URL and the listing of the cache directory holds a file
  whose name starts with the sanitized name, each worker returns at its cache probe: it
  has requested nothing, and \<open>local_image\<close> is the path of the first such file of the
  listing.
\<close>

theorem cache_hit_no_network:
  assumes "truthy (wiki_url e)" "listdir w = Inr files"
    "find (prefix (safe_name (get_name e))) files = Some f"
  shows "download_image_from_entry w d e =
           Inr \<lparr>updated = e\<lparr>local_image := Some (path_join d f)\<rparr>,
                requests = [], written = None, exit_at = AlreadyExists f\<rparr>
       \<and> process_entry w d e =
           Inr \<lparr>updated = e\<lparr>local_image := Some (path_join d f)\<rparr>,
                requests = [], written = None, exit_at = AlreadyExists f\<rparr>"
proof -
  obtain fs where "filter (prefix (safe_name (get_name e))) files = f # fs"
    using find_filter_Cons [OF assms(3)] by auto
  with assms(1,2) show ?thesis
    by (simp add: download_image_from_entry_hit process_entry_hit)
qed

theorem cache_hit_no_network_witness:
  "truthy (wiki_url example_entry)
   \<and> find (prefix (safe_name (get_name example_entry)))
         [''x.png'', ''fake_animal.png'', ''fake_animal.jpg''] = Some ''fake_animal.png''
   \<and> download_image_from_entry
         (example_env\<lparr>listdir := Inr [''x.png'', ''fake_animal.png'', ''fake_animal.jpg'']\<rparr>)
         ''tmp'' example_entry =
       Inr \<lparr>updated = example_entry\<lparr>local_image := Some ''tmp/fake_animal.png''\<rparr>,
            requests = [], written = None, exit_at = AlreadyExists ''fake_animal.png''\<rparr>
   \<and> process_entry
         (example_env\<lparr>listdir := Inr [''x.png'', ''fake_animal.png'', ''fake_animal.jpg'']\<rparr>)
         ''tmp'' example_entry =
       Inr \<lparr>updated = example_entry\<lparr>local_image := Some ''tmp/fake_animal.png''\<rparr>,
            requests = [], written = None, exit_at = AlreadyExists ''fake_animal.png''\<rparr>"
proof -
  have h1: "truthy (wiki_url example_entry)"
    by code_simp
  have h2: "listdir (example_env\<lparr>listdir := Inr [''x.png'', ''fake_animal.png'', ''fake_animal.jpg'']\<rparr>)
      = Inr [''x.png'', ''fake_animal.png'', ''fake_animal.jpg'']"
    by simp
  have h3: "find (prefix (safe_name (get_name example_entry)))
      [''x.png'', ''fake_animal.png'', ''fake_animal.jpg''] = Some ''fake_animal.png''"
    by code_simp
  have p: "path_join ''tmp'' ''fake_animal.png'' = ''tmp/fake_animal.png''"
    by code_simp
  show ?thesis
    using cache_hit_no_network [OF h1 h2 h3, of "''tmp''"] h1 h3 unfolding p by simp
qed

lemma in_strip:
  assumes "x \<in> set s" "\<not> whitespace x"
  shows "x \<in> set (strip s)"
proof -
  have "x \<notin> set (takeWhile whitespace s)"
    using assms(2) by (auto dest: set_takeWhileD)
  moreover have "set s = set (takeWhile whitespace s) \<union> set (dropWhile whitespace s)"
    by (metis set_append takeWhile_dropWhile_id)
  ultimately have a: "x \<in> set (rev (dropWhile whitespace s))"
    using assms(1) by simp
  have "x \<notin> set (takeWhile whitespace (rev (dropWhile whitespace s)))"
    using assms(2) by (auto dest: set_takeWhileD)
  moreover have "set (rev (dropWhile whitespace s))
      = set (takeWhile whitespace (rev (dropWhile whitespace s)))
        \<union> set (dropWhile whitespace (rev (dropWhile whitespace s)))"
    by (metis set_append takeWhile_dropWhile_id)
  ultimately have "x \<in> set (dropWhile whitespace (rev (dropWhile whitespace s)))"
    using a by blast
  then show ?thesis by (simp add: strip_def)
qed

lemma kept_lower_char: "kept c \<Longrightarrow> kept (lower_char c)"
proof -
  have u: "(of_char (CHR ''_'') :: nat) = 95" and h: "(of_char (CHR ''-'') :: nat) = 45"
    by simp_all
  assume "kept c"
  then consider "re_w c" | "re_d c" | "c = CHR ''_''" | "c = CHR ''-''"
    by (auto simp: kept_def)
  then show ?thesis
  proof cases
    case 1
    then have "re_w (lower_char c)"
      by (auto simp: re_w_def of_char_lower_char Let_def)
    then show ?thesis by (simp add: kept_def)
  next
    case 2
    then have "re_d (lower_char c)"
      by (auto simp: re_d_def of_char_lower_char Let_def)
    then show ?thesis by (simp add: kept_def)
  next
    case 3 then show ?thesis by (simp add: kept_def lower_char_def)
  next
    case 4 then show ?thesis by (simp add: kept_def lower_char_def)
  qed
qed

lemma safe_name_empty_no_kept:
  assumes "safe_name n = []" "c \<in> set n"
  shows "\<not> kept c"
proof
  assume k: "kept c"
  let ?c = "lower_char c"
  have kl: "kept ?c" using k by (rule kept_lower_char)
  then have nw: "\<not> whitespace ?c" by (rule kept_not_whitespace)
  have "?c \<in> set (lower n)" using assms(2) by (simp add: lower_def)
  then have "?c \<in> set (strip (lower n))" using nw by (rule in_strip)
  moreover have "?c \<noteq> CHR '' ''" using nw by (auto simp: whitespace_def)
  ultimately have "?c \<in> set (replace_space (strip (lower n)))"
    by (force simp: replace_space_def)
  with kl have "?c \<in> set (safe_name n)"
    by (simp add: safe_name_def re_sub_unsafe_def)
  with assms(1) show False by simp
qed

text \<open>
  C10. A name that sanitizes to the empty string holds no character the pattern keeps, and
  the empty prefix starts every file name: with a non-empty listing each worker returns at
  its cache probe, having requested nothing, with \<open>local_image\<close> the path of the first
  file of the listing, whatever entry that file was stored for.
\<close>

theorem empty_prefix_hits_any_file:
  assumes "safe_name (get_name e) = []" "truthy (wiki_url e)" "listdir w = Inr (f # fs)"
  shows "filter (prefix (safe_name (get_name e))) (f # fs) = f # fs
       \<and> set (get_name e) \<inter> {c. kept c} = {}
       \<and> download_image_from_entry w d e =
           Inr \<lparr>updated = e\<lparr>local_image := Some (path_join d f)\<rparr>,
                requests = [], written = None, exit_at = AlreadyExists f\<rparr>
       \<and> process_entry w d e =
           Inr \<lparr>updated = e\<lparr>local_image := Some (path_join d f)\<rparr>,
                requests = [], written = None, exit_at = AlreadyExists f\<rparr>"
proof -
  have a: "filter (prefix (safe_name (get_name e))) (f # fs) = f # fs"
    using assms(1) by simp
  have b: "set (get_name e) \<inter> {c. kept c} = {}"
    using assms(1) safe_name_empty_no_kept by blast
  from a b assms(2,3) show ?thesis
    by (simp add: download_image_from_entry_hit process_entry_hit)
qed

theorem empty_prefix_hits_any_file_witness:
  "safe_name (get_name (example_entry\<lparr>name := Some ''?!''\<rparr>)) = []
   \<and> truthy (wiki_url (example_entry\<lparr>name := Some ''?!''\<rparr>))
   \<and> download_image_from_entry (example_env\<lparr>listdir := Inr [''red_fox.jpg'']\<rparr>) ''tmp''
         (example_entry\<lparr>name := Some ''?!''\<rparr>) =
       Inr \<lparr>updated = example_entry\<lparr>name := Some ''?!'', local_image := Some ''tmp/red_fox.jpg''\<rparr>,
            requests = [], written = None, exit_at = AlreadyExists ''red_fox.jpg''\<rparr>
   \<and> process_entry (example_env\<lparr>listdir := Inr [''red_fox.jpg'']\<rparr>) ''tmp''
         (example_entry\<lparr>name := Some ''?!''\<rparr>) =
       Inr \<lparr>updated = example_entry\<lparr>name := Some ''?!'', local_image := Some ''tmp/red_fox.jpg''\<rparr>,
            requests = [], written = None, exit_at = AlreadyExists ''red_fox.jpg''\<rparr>"
proof -
  have h1: "safe_name (get_name (example_entry\<lparr>name := Some ''?!''\<rparr>)) = []"
    by code_simp
  have h2: "truthy (wiki_url (example_entry\<lparr>name := Some ''?!''\<rparr>))"
    by code_simp
  have h3: "listdir (example_env\<lparr>listdir := Inr [''red_fox.jpg'']\<rparr>) = Inr [''red_fox.jpg'']"
    by simp
  have p: "path_join ''tmp'' ''red_fox.jpg'' = ''tmp/red_fox.jpg''"
    by code_simp
  show ?thesis
    using empty_prefix_hits_any_file [OF h1 h2 h3, of "''tmp''"] h1 h2 unfolding p by simp
qed

section \<open>Image locators\<close>

lemma no_src_spec_hit: "no_src img = (spec_hit img = None)"
  by (auto simp: no_src_def spec_hit_def truthy_def split: option.splits)

lemma spec_hit_with_src:
  assumes "find_tag is_img_with_src t = Some i" "attr_get i ''src'' \<noteq> Some []"
  shows "spec_hit (Some i) \<noteq> None"
proof -
  from assms(1) have "is_img_with_src i"
    by (auto simp: find_tag_def find_Some_iff)
  then obtain s where "attr_get i ''src'' = Some s"
    by (auto simp: is_img_with_src_def)
  with assms(2) show ?thesis by (simp add: spec_hit_def)
qed

lemma entry_img_tag_first_hit:
  assumes "\<forall>i. spec_rule2 soup = Some i \<longrightarrow> attr_get i ''src'' \<noteq> Some []"
    and "\<forall>i. spec_rule3 soup = Some i \<longrightarrow> attr_get i ''src'' \<noteq> Some []"
  shows "spec_hit (entry_img_tag soup) = spec_locate soup"
proof (cases "spec_hit (spec_rule1 soup)")
  case (Some s)
  then have "\<not> no_src (spec_rule1 soup)" by (simp add: no_src_spec_hit)
  then have "entry_img_tag soup = spec_rule1 soup"
    by (simp add: entry_img_tag_def spec_rule1_def Let_def)
  with Some show ?thesis by (simp add: spec_locate_def)
next
  case None
  then have "no_src (spec_rule1 soup)" by (simp add: no_src_spec_hit)
  then have e: "entry_img_tag soup = find_first_content_image soup"
    by (simp add: entry_img_tag_def spec_rule1_def Let_def)
  have l: "spec_locate soup
      = first_hit [spec_hit (spec_rule2 soup), spec_hit (spec_rule3 soup), spec_hit (spec_rule4 soup)]"
    using None by (simp add: spec_locate_def)
  show ?thesis
  proof (cases "spec_rule2 soup")
    case (Some i)
    then have f: "find_first_content_image soup = Some i"
      by (simp add: find_first_content_image_def spec_rule2_def Let_def)
    from Some obtain t where "find_tag is_img_with_src t = Some i"
      by (auto simp: spec_rule2_def split: option.splits)
    moreover have "attr_get i ''src'' \<noteq> Some []" using assms(1) Some by blast
    ultimately have "spec_hit (Some i) \<noteq> None" by (rule spec_hit_with_src)
    then obtain s where "spec_hit (Some i) = Some s" by blast
    with Some e f l show ?thesis by simp
  next
    case n2: None
    show ?thesis
    proof (cases "spec_rule3 soup")
      case (Some i)
      then have f: "find_first_content_image soup = Some i"
        using n2 by (simp add: find_first_content_image_def spec_rule2_def spec_rule3_def Let_def)
      from Some obtain t where "find_tag is_img_with_src t = Some i"
        by (auto simp: spec_rule3_def split: option.splits)
      moreover have "attr_get i ''src'' \<noteq> Some []" using assms(2) Some by blast
      ultimately have "spec_hit (Some i) \<noteq> None" by (rule spec_hit_with_src)
      then obtain s where "spec_hit (Some i) = Some s" by blast
      with Some n2 e f l show ?thesis by (simp add: spec_hit_def)
    next
      case n3: None
      have f: "find_first_content_image soup
          = (if \<not> no_src (spec_rule4 soup) then spec_rule4 soup else None)"
        using n2 n3
        by (simp add: find_first_content_image_def spec_rule2_def spec_rule3_def spec_rule4_def
            Let_def)
      show ?thesis
      proof (cases "spec_hit (spec_rule4 soup)")
        case None
        then have "no_src (spec_rule4 soup)" by (simp add: no_src_spec_hit)
        with None n2 n3 e f l show ?thesis by (simp add: spec_hit_def)
      next
        case (Some s)
        then have "\<not> no_src (spec_rule4 soup)" by (simp add: no_src_spec_hit)
        with Some n2 n3 e f l show ?thesis by (simp add: spec_hit_def)
      qed
    qed
  qed
qed

lemma extract_image_url_rules:
  "extract_image_url soup = map_option entry_img_url (async_rules soup)"
  by (auto simp: extract_image_url_def entry_img_url_def async_rules_def spec_rule1_def
      spec_rule4_def spec_hit_def no_src_def truthy_def Let_def split: option.splits)

text \<open>
  C5 as stated fails on the async locator: on a page whose infobox panel holds no image
  and whose first file-thumbnail container does, \<open>extract_image_url\<close> returns nothing,
  while rule 2 hits (and the thread-pool locator finds that image).
\<close>

theorem extract_image_url_counterexample:
  "extract_image_url infobox_without_image_page = None
   \<and> spec_locate infobox_without_image_page = Some ''//upload.wikimedia.org/fox.jpg''
   \<and> spec_hit (entry_img_tag infobox_without_image_page) = Some ''//upload.wikimedia.org/fox.jpg''"
  by code_simp

text \<open>
  C5, amended. On a page where the image found in the file-thumbnail container and the one
  found in the file container have a non-empty \<open>src\<close>, the thread-pool locator (the
  infobox step of \<open>download_image_from_entry\<close>, then \<open>find_first_content_image\<close>)
  returns the reference of the first of the four rules that hits, and nothing when none
  does. The async locator \<open>extract_image_url\<close> applies rule 1 alone when the page has
  an infobox panel and rule 4 alone when it has none.
\<close>

theorem locators_rules:
  assumes "\<forall>i. spec_rule2 soup = Some i \<longrightarrow> attr_get i ''src'' \<noteq> Some []"
    and "\<forall>i. spec_rule3 soup = Some i \<longrightarrow> attr_get i ''src'' \<noteq> Some []"
  shows "spec_hit (entry_img_tag soup) = spec_locate soup
       \<and> no_src (entry_img_tag soup) = (spec_locate soup = None)
       \<and> extract_image_url soup = map_option entry_img_url (async_rules soup)"
proof -
  have a: "spec_hit (entry_img_tag soup) = spec_locate soup"
    using assms by (rule entry_img_tag_first_hit)
  then have "no_src (entry_img_tag soup) = (spec_locate soup = None)"
    by (simp add: no_src_spec_hit)
  with a show ?thesis
    by (simp add: extract_image_url_rules)
qed

lemma infobox_without_image_page_rules:
  "spec_rule2 infobox_without_image_page
     = Some (Tag ''img'' (Some [''mw-file-element''])
              [(''src'', ''//upload.wikimedia.org/fox.jpg'')] [])
   \<and> spec_rule3 infobox_without_image_page = None
   \<and> spec_locate infobox_without_image_page = Some ''//upload.wikimedia.org/fox.jpg''
   \<and> async_rules infobox_without_image_page = None"
  by code_simp

theorem locators_rules_witness:
  "spec_rule2 infobox_without_image_page
     = Some (Tag ''img'' (Some [''mw-file-element''])
              [(''src'', ''//upload.wikimedia.org/fox.jpg'')] [])
   \<and> spec_rule3 infobox_without_image_page = None
   \<and> spec_hit (entry_img_tag infobox_without_image_page) = Some ''//upload.wikimedia.org/fox.jpg''
   \<and> \<not> no_src (entry_img_tag infobox_without_image_page)
   \<and> extract_image_url infobox_without_image_page = None"
proof -
  note r = infobox_without_image_page_rules
  have h2: "\<forall>i. spec_rule2 infobox_without_image_page = Some i
      \<longrightarrow> attr_get i ''src'' \<noteq> Some []"
    using r by (simp add: attr_get_def)
  have h3: "\<forall>i. spec_rule3 infobox_without_image_page = Some i
      \<longrightarrow> attr_get i ''src'' \<noteq> Some []"
    using r by simp
  show ?thesis
    using locators_rules [OF h2 h3] r by simp
qed

text \<open>
  C6 as stated fails: a reference beginning with a single slash is put behind the fixed
  host \<open>en.wikipedia.org\<close>, not behind the host of the source page.
\<close>

theorem entry_img_url_counterexample:
  "entry_img_url ''/static/fox.jpg'' = ''https://en.wikipedia.org/static/fox.jpg''
   \<and> spec_normalize (spec_source_host ''https://commons.wikimedia.org/wiki/Fox'')
         ''/static/fox.jpg''
       = ''https://commons.wikimedia.org/static/fox.jpg''"
  by code_simp

text \<open>
  C6, amended. Both workers normalize a located reference as the specification says, with
  the host fixed to \<open>en.wikipedia.org\<close>: a reference beginning with two slashes gets
  \<open>https:\<close> in front, one beginning with a single slash gets
  \<open>https://en.wikipedia.org\<close> in front, any other is passed through.
\<close>

theorem img_url_fixed_host:
  "entry_img_url src = spec_normalize ''en.wikipedia.org'' src
   \<and> extract_image_url soup
       = map_option (spec_normalize ''en.wikipedia.org'') (async_rules soup)"
proof -
  have "entry_img_url = spec_normalize ''en.wikipedia.org''"
    by (rule ext) (simp add: entry_img_url_def spec_normalize_def)
  then show ?thesis
    by (simp add: extract_image_url_rules)
qed

theorem img_url_fixed_host_witness:
  "entry_img_url ''/static/fox.jpg'' = ''https://en.wikipedia.org/static/fox.jpg''
   \<and> extract_image_url example_page = Some ''https://upload.wikimedia.org/fake_image.jpg''"
proof -
  have a: "spec_normalize ''en.wikipedia.org'' ''/static/fox.jpg''
      = ''https://en.wikipedia.org/static/fox.jpg''"
    by code_simp
  have b: "map_option (spec_normalize ''en.wikipedia.org'') (async_rules example_page)
      = Some ''https://upload.wikimedia.org/fake_image.jpg''"
    by code_simp
  show ?thesis
    using img_url_fixed_host [of "''/static/fox.jpg''" example_page] unfolding a b .
qed

section \<open>Workers after a cache miss\<close>

lemma miss_filter:
  "filter (prefix (safe_name nm)) files = []
   \<Longrightarrow> filter (prefix (re_sub_unsafe (replace_space (strip (lower nm))))) files = []"
  by (simp add: safe_name_def)

lemma sync_miss:
  assumes "wiki_url e = Some url" "url \<noteq> []" "listdir w = Inr files"
    "filter (prefix (safe_name (get_name e))) files = []"
  shows "download_image_from_entry w d e =
     (case get_and_raise_for_status (fetch_page w) url of
        Inl x \<Rightarrow> except_Exception e [url] None x
      | Inr res \<Rightarrow>
         (let img_tag = entry_img_tag (parse w (resp_text res))
          in if no_src img_tag
             then Inr \<lparr>updated = e, requests = [url], written = None, exit_at = NoImageFound\<rparr>
             else
              (let img_url = entry_img_url (the (attr_get (the img_tag) ''src''))
               in case sanitize_filename (splitext_urlpath w) (get_name e) img_url of
                    Inl x \<Rightarrow> except_Exception e [url] None x
                  | Inr filename \<Rightarrow>
                     (let local_path = path_join d filename
                      in case stream_to_file w img_url local_path of
                           (Some x, wr) \<Rightarrow> except_Exception e [url, img_url] wr x
                         | (None, wr) \<Rightarrow>
                             Inr \<lparr>updated = e\<lparr>local_image := Some local_path\<rparr>,
                                  requests = [url, img_url],
                                  written = wr, exit_at = Saved\<rparr>))))"
  using assms(1,2,3) miss_filter [OF assms(4)]
  by (simp add: download_image_from_entry_def truthy_def Let_def
      split: sum.split prod.split option.split)

lemma async_miss:
  assumes "wiki_url e = Some url" "url \<noteq> []" "listdir w = Inr files"
    "filter (prefix (safe_name (get_name e))) files = []"
  shows "process_entry w d e =
     (let html = fetch_html w url
      in if \<not> truthy html
         then Inr \<lparr>updated = e, requests = [url], written = None, exit_at = PageFailed\<rparr>
         else
          (let img_url = extract_image_url (parse w (the html))
           in if \<not> truthy img_url
              then Inr \<lparr>updated = e, requests = [url], written = None, exit_at = NoImageFound\<rparr>
              else
               (case sanitize_filename (splitext_urlpath w) (get_name e) (the img_url) of
                  Inl x \<Rightarrow> Inl x
                | Inr filename \<Rightarrow>
                   (let local_path = path_join d filename
                    in if path_exists w local_path
                       then Inr \<lparr>updated = e\<lparr>local_image := Some local_path\<rparr>,
                                 requests = [url], written = None,
                                 exit_at = CachedPostScrape\<rparr>
                       else
                        (case download_image w (the img_url) local_path of
                           (True, wr) \<Rightarrow>
                             Inr \<lparr>updated = e\<lparr>local_image := Some local_path\<rparr>,
                                  requests = [url, the img_url],
                                  written = wr, exit_at = Saved\<rparr>
                         | (False, wr) \<Rightarrow>
                             Inr \<lparr>updated = e, requests = [url, the img_url],
                                  written = wr, exit_at = DownloadFailed\<rparr>)))))"
  using assms(1,2,3) miss_filter [OF assms(4)]
  by (simp add: process_entry_def truthy_def Let_def
      split: sum.split prod.split option.split bool.split)

lemma sync_returns:
  assumes "wiki_url e = Some url" "url \<noteq> []" "listdir w = Inr files"
    "filter (prefix (safe_name (get_name e))) files = []"
  shows "\<exists>r. download_image_from_entry w d e = Inr r \<and> (exit_at r \<noteq> Saved \<longrightarrow> updated r = e)"
  unfolding sync_miss [OF assms]
  by (simp add: except_Exception_def Let_def split: sum.split prod.split option.split)

lemma async_unchanged:
  assumes "wiki_url e = Some url" "url \<noteq> []" "listdir w = Inr files"
    "filter (prefix (safe_name (get_name e))) files = []"
    and "process_entry w d e = Inr r" "exit_at r \<noteq> Saved" "exit_at r \<noteq> CachedPostScrape"
  shows "updated r = e"
  using assms(5,6,7) unfolding async_miss [OF assms(1,2,3,4)]
  by (auto simp: Let_def split: if_splits sum.splits prod.splits bool.splits)

lemma extract_image_url_nonempty: "extract_image_url soup = Some u \<Longrightarrow> u \<noteq> []"
  by (auto simp: extract_image_url_def no_src_def truthy_def Let_def
      split: option.splits if_splits)

text \<open>
  C2. After a cache miss, the thread-pool worker always returns normally, and with the
  entry as it was unless it saved the image. In both workers a page-fetch failure, a page
  with no image and an image-fetch failure each end the invocation with a normal return
  and the entry as it was (so \<open>local_image\<close> stays unset); the async worker changes the
  entry only when it saved the image or found the destination already there. The async
  worker raises past its boundary only when the URL splitter raises on the located image
  URL, which is none of the three failures.
\<close>

theorem failures_recovered:
  assumes "wiki_url e = Some url" "url \<noteq> []" "listdir w = Inr files"
    "filter (prefix (safe_name (get_name e))) files = []"
  shows "(\<exists>r. download_image_from_entry w d e = Inr r
          \<and> (exit_at r \<noteq> Saved \<longrightarrow> updated r = e))
    \<and> (get_and_raise_for_status (fetch_page w) url = Inl x \<longrightarrow>
         download_image_from_entry w d e =
           Inr \<lparr>updated = e, requests = [url], written = None, exit_at = ErrorDownloading x\<rparr>)
    \<and> (get_and_raise_for_status (fetch_page w) url = Inr res
         \<and> no_src (entry_img_tag (parse w (resp_text res))) \<longrightarrow>
         download_image_from_entry w d e =
           Inr \<lparr>updated = e, requests = [url], written = None, exit_at = NoImageFound\<rparr>)
    \<and> (get_and_raise_for_status (fetch_page w) url = Inr res
         \<and> spec_hit (entry_img_tag (parse w (resp_text res))) = Some src
         \<and> sanitize_filename (splitext_urlpath w) (get_name e) (entry_img_url src) = Inr fn
         \<and> stream_to_file w (entry_img_url src) (path_join d fn) = (Some x, wr) \<longrightarrow>
         download_image_from_entry w d e =
           Inr \<lparr>updated = e, requests = [url, entry_img_url src], written = wr,
                exit_at = ErrorDownloading x\<rparr>)
    \<and> (\<not> truthy (fetch_html w url) \<longrightarrow>
         process_entry w d e =
           Inr \<lparr>updated = e, requests = [url], written = None, exit_at = PageFailed\<rparr>)
    \<and> (fetch_html w url = Some html \<and> html \<noteq> []
         \<and> extract_image_url (parse w html) = None \<longrightarrow>
         process_entry w d e =
           Inr \<lparr>updated = e, requests = [url], written = None, exit_at = NoImageFound\<rparr>)
    \<and> (fetch_html w url = Some html \<and> html \<noteq> []
         \<and> extract_image_url (parse w html) = Some img_url
         \<and> sanitize_filename (splitext_urlpath w) (get_name e) img_url = Inr fn
         \<and> \<not> path_exists w (path_join d fn)
         \<and> download_image w img_url (path_join d fn) = (False, wr) \<longrightarrow>
         process_entry w d e =
           Inr \<lparr>updated = e, requests = [url, img_url], written = wr,
                exit_at = DownloadFailed\<rparr>)
    \<and> (process_entry w d e = Inr r \<and> exit_at r \<noteq> Saved
         \<and> exit_at r \<noteq> CachedPostScrape \<longrightarrow> updated r = e)
    \<and> (process_entry w d e = Inl y \<longrightarrow>
         truthy (fetch_html w url)
         \<and> truthy (extract_image_url (parse w (the (fetch_html w url))))
         \<and> sanitize_filename (splitext_urlpath w) (get_name e)
               (the (extract_image_url (parse w (the (fetch_html w url))))) = Inl y)"
proof -
  note s = sync_miss [OF assms] and a = async_miss [OF assms]
  have 1: "\<exists>r. download_image_from_entry w d e = Inr r
      \<and> (exit_at r \<noteq> Saved \<longrightarrow> updated r = e)"
    using assms by (rule sync_returns)
  have 2: "download_image_from_entry w d e =
      Inr \<lparr>updated = e, requests = [url], written = None, exit_at = ErrorDownloading x\<rparr>"
    if "get_and_raise_for_status (fetch_page w) url = Inl x"
    using that by (simp add: s except_Exception_def)
  have 3: "download_image_from_entry w d e =
      Inr \<lparr>updated = e, requests = [url], written = None, exit_at = NoImageFound\<rparr>"
    if "get_and_raise_for_status (fetch_page w) url = Inr res"
      "no_src (entry_img_tag (parse w (resp_text res)))"
    using that by (simp add: s)
  have 4: "download_image_from_entry w d e =
      Inr \<lparr>updated = e, requests = [url, entry_img_url src], written = wr,
           exit_at = ErrorDownloading x\<rparr>"
    if h: "get_and_raise_for_status (fetch_page w) url = Inr res"
      "spec_hit (entry_img_tag (parse w (resp_text res))) = Some src"
      "sanitize_filename (splitext_urlpath w) (get_name e) (entry_img_url src) = Inr fn"
      "stream_to_file w (entry_img_url src) (path_join d fn) = (Some x, wr)"
  proof -
    from h(2) have n: "\<not> no_src (entry_img_tag (parse w (resp_text res)))"
      by (simp add: no_src_spec_hit)
    from h(2) have t: "the (attr_get (the (entry_img_tag (parse w (resp_text res)))) ''src'') = src"
      by (auto simp: spec_hit_def split: option.splits if_splits)
    show ?thesis
      using h(1,3,4) n t by (simp add: s except_Exception_def)
  qed
  have 5: "process_entry w d e =
      Inr \<lparr>updated = e, requests = [url], written = None, exit_at = PageFailed\<rparr>"
    if "\<not> truthy (fetch_html w url)"
    using that by (simp add: a)
  have 6: "process_entry w d e =
      Inr \<lparr>updated = e, requests = [url], written = None, exit_at = NoImageFound\<rparr>"
    if "fetch_html w url = Some html" "html \<noteq> []" "extract_image_url (parse w html) = None"
    using that by (simp add: a truthy_def)
  have 7: "process_entry w d e =
      Inr \<lparr>updated = e, requests = [url, img_url], written = wr, exit_at = DownloadFailed\<rparr>"
    if h: "fetch_html w url = Some html" "html \<noteq> []"
      "extract_image_url (parse w html) = Some img_url"
      "sanitize_filename (splitext_urlpath w) (get_name e) img_url = Inr fn"
      "\<not> path_exists w (path_join d fn)"
      "download_image w img_url (path_join d fn) = (False, wr)"
  proof -
    have "img_url \<noteq> []" using h(3) by (rule extract_image_url_nonempty)
    then show ?thesis using h by (simp add: a truthy_def)
  qed
  have 8: "truthy (fetch_html w url)
      \<and> truthy (extract_image_url (parse w (the (fetch_html w url))))
      \<and> sanitize_filename (splitext_urlpath w) (get_name e)
            (the (extract_image_url (parse w (the (fetch_html w url))))) = Inl y"
    if "process_entry w d e = Inl y"
    using that unfolding a
    by (simp add: Let_def split: if_splits sum.splits prod.splits bool.splits)
  have 9: "updated r = e"
    if "process_entry w d e = Inr r" "exit_at r \<noteq> Saved" "exit_at r \<noteq> CachedPostScrape"
    using assms that by (rule async_unchanged)
  from 1 2 3 4 5 6 7 8 9 show ?thesis by blast
qed


lemma example_miss:
  "wiki_url example_entry = Some example_url \<and> example_url \<noteq> []
   \<and> filter (prefix (safe_name (get_name example_entry))) [] = []"
  by code_simp

theorem failures_recovered_witness:
  "get_and_raise_for_status (fetch_page page_down_env) example_url = Inl RequestException
   \<and> download_image_from_entry page_down_env ''tmp'' example_entry =
       Inr \<lparr>updated = example_entry, requests = [example_url], written = None,
            exit_at = ErrorDownloading RequestException\<rparr>
   \<and> \<not> truthy (fetch_html page_down_env example_url)
   \<and> process_entry page_down_env ''tmp'' example_entry =
       Inr \<lparr>updated = example_entry, requests = [example_url], written = None,
            exit_at = PageFailed\<rparr>
   \<and> no_src (entry_img_tag (parse no_image_env (resp_text example_response)))
   \<and> download_image_from_entry no_image_env ''tmp'' example_entry =
       Inr \<lparr>updated = example_entry, requests = [example_url], written = None,
            exit_at = NoImageFound\<rparr>
   \<and> extract_image_url (parse no_image_env ''<html>'') = None
   \<and> process_entry no_image_env ''tmp'' example_entry =
       Inr \<lparr>updated = example_entry, requests = [example_url], written = None,
            exit_at = NoImageFound\<rparr>
   \<and> stream_to_file image_down_env example_img_url ''tmp/fake_animal.jpg''
       = (Some (HTTPError 404), None)
   \<and> download_image_from_entry image_down_env ''tmp'' example_entry =
       Inr \<lparr>updated = example_entry, requests = [example_url, example_img_url],
            written = None, exit_at = ErrorDownloading (HTTPError 404)\<rparr>
   \<and> download_image image_down_env example_img_url ''tmp/fake_animal.jpg'' = (False, None)
   \<and> process_entry image_down_env ''tmp'' example_entry =
       Inr \<lparr>updated = example_entry, requests = [example_url, example_img_url],
            written = None, exit_at = DownloadFailed\<rparr>
   \<and> process_entry bad_url_env ''tmp'' example_entry = Inl ValueError
   \<and> sanitize_filename (splitext_urlpath bad_url_env) (get_name example_entry)
         (the (extract_image_url (parse bad_url_env (the (fetch_html bad_url_env example_url)))))
       = Inl ValueError
   \<and> download_image_from_entry bad_url_env ''tmp'' example_entry =
       Inr \<lparr>updated = example_entry, requests = [example_url], written = None,
            exit_at = ErrorDownloading ValueError\<rparr>"
proof -
  note m = example_miss
  have u: "wiki_url example_entry = Some example_url" and n: "example_url \<noteq> []"
    and f: "filter (prefix (safe_name (get_name example_entry))) [] = []"
    using m by simp_all
  have l1: "listdir page_down_env = Inr []" and l2: "listdir no_image_env = Inr []"
    and l3: "listdir image_down_env = Inr []" and l4: "listdir bad_url_env = Inr []"
    by (simp_all add: page_down_env_def no_image_env_def image_down_env_def bad_url_env_def
        example_env_def)
  have p1: "get_and_raise_for_status (fetch_page page_down_env) example_url = Inl RequestException"
    by code_simp
  have p2: "\<not> truthy (fetch_html page_down_env example_url)"
    by code_simp
  have q1: "get_and_raise_for_status (fetch_page no_image_env) example_url = Inr example_response"
    by code_simp
  have q2: "no_src (entry_img_tag (parse no_image_env (resp_text example_response)))"
    by code_simp
  have q3: "fetch_html no_image_env example_url = Some ''<html>'' \<and> ''<html>'' \<noteq> []"
    by code_simp
  have q4: "extract_image_url (parse no_image_env ''<html>'') = None"
    by code_simp
  have r1: "get_and_raise_for_status (fetch_page image_down_env) example_url = Inr example_response"
    by code_simp
  have r2: "spec_hit (entry_img_tag (parse image_down_env (resp_text example_response)))
      = Some ''//upload.wikimedia.org/fake_image.jpg''"
    by code_simp
  have r3: "entry_img_url ''//upload.wikimedia.org/fake_image.jpg'' = example_img_url"
    by code_simp
  have r4: "sanitize_filename (splitext_urlpath image_down_env) (get_name example_entry)
      example_img_url = Inr ''fake_animal.jpg''"
    by code_simp
  have r5: "path_join ''tmp'' ''fake_animal.jpg'' = ''tmp/fake_animal.jpg''"
    by code_simp
  have r6: "stream_to_file image_down_env example_img_url ''tmp/fake_animal.jpg''
      = (Some (HTTPError 404), None)"
    by code_simp
  have r7: "fetch_html image_down_env example_url = Some ''<html>''"
    by code_simp
  have r8: "extract_image_url (parse image_down_env ''<html>'') = Some example_img_url"
    by code_simp
  have r9: "\<not> path_exists image_down_env ''tmp/fake_animal.jpg''"
    by code_simp
  have r10: "download_image image_down_env example_img_url ''tmp/fake_animal.jpg'' = (False, None)"
    by code_simp
  have A: "download_image_from_entry page_down_env ''tmp'' example_entry =
       Inr \<lparr>updated = example_entry, requests = [example_url], written = None,
            exit_at = ErrorDownloading RequestException\<rparr>
     \<and> process_entry page_down_env ''tmp'' example_entry =
       Inr \<lparr>updated = example_entry, requests = [example_url], written = None,
            exit_at = PageFailed\<rparr>"
    using failures_recovered [OF u n l1 f, where d = "''tmp''" and x = RequestException] p1 p2
    by simp
  have B: "download_image_from_entry no_image_env ''tmp'' example_entry =
       Inr \<lparr>updated = example_entry, requests = [example_url], written = None,
            exit_at = NoImageFound\<rparr>
     \<and> process_entry no_image_env ''tmp'' example_entry =
       Inr \<lparr>updated = example_entry, requests = [example_url], written = None,
            exit_at = NoImageFound\<rparr>"
    using failures_recovered [OF u n l2 f, where d = "''tmp''" and res = example_response
        and html = "''<html>''"] q1 q2 q3 q4
    by simp
  have C: "download_image_from_entry image_down_env ''tmp'' example_entry =
       Inr \<lparr>updated = example_entry, requests = [example_url, example_img_url],
            written = None, exit_at = ErrorDownloading (HTTPError 404)\<rparr>
     \<and> process_entry image_down_env ''tmp'' example_entry =
       Inr \<lparr>updated = example_entry, requests = [example_url, example_img_url],
            written = None, exit_at = DownloadFailed\<rparr>"
    using failures_recovered [OF u n l3 f, where d = "''tmp''" and res = example_response
        and src = "''//upload.wikimedia.org/fake_image.jpg''" and fn = "''fake_animal.jpg''"
        and x = "HTTPError 404" and wr = None and html = "''<html>''"
        and img_url = example_img_url]
      r1 r2 r4 r6 r7 r8 r9 r10
    unfolding r3 r5 by simp
  have s1: "process_entry bad_url_env ''tmp'' example_entry = Inl ValueError"
    by code_simp
  have s2: "download_image_from_entry bad_url_env ''tmp'' example_entry =
       Inr \<lparr>updated = example_entry, requests = [example_url], written = None,
            exit_at = ErrorDownloading ValueError\<rparr>"
    by code_simp
  have D: "sanitize_filename (splitext_urlpath bad_url_env) (get_name example_entry)
         (the (extract_image_url (parse bad_url_env (the (fetch_html bad_url_env example_url)))))
       = Inl ValueError"
    using failures_recovered [OF u n l4 f, where d = "''tmp''" and y = ValueError] s1
    by simp
  from A B C D p1 p2 q2 q4 r6 r10 s1 s2 show ?thesis by simp
qed

text \<open>
  C7 as stated fails on the thread-pool worker: it has no re-check, and with the
  destination path already there it still fetches the image and writes the file.
\<close>

theorem recheck_destination_counterexample:
  "listdir raced_env = Inr []
   \<and> path_exists raced_env ''tmp/fake_animal.jpg''
   \<and> download_image_from_entry raced_env ''tmp'' example_entry =
       Inr \<lparr>updated = example_entry\<lparr>local_image := Some ''tmp/fake_animal.jpg''\<rparr>,
            requests = [example_url, example_img_url],
            written = Some (''tmp/fake_animal.jpg'', ''fakeimagedata''), exit_at = Saved\<rparr>"
  by code_simp

text \<open>
  C7, amended. After a cache miss and a successful locate, the async worker checks whether
  the destination path exists before fetching the image; if it does, \<open>local_image\<close> is
  set to that path and only the page has been requested. The thread-pool worker makes no
  such check: once the image is located it requests it and, when the download succeeds,
  sets \<open>local_image\<close> to the path it wrote.
\<close>

theorem recheck_destination:
  assumes "wiki_url e = Some url" "url \<noteq> []" "listdir w = Inr files"
    "filter (prefix (safe_name (get_name e))) files = []"
  shows "(fetch_html w url = Some html \<and> html \<noteq> []
         \<and> extract_image_url (parse w html) = Some img_url
         \<and> sanitize_filename (splitext_urlpath w) (get_name e) img_url = Inr fn
         \<and> path_exists w (path_join d fn) \<longrightarrow>
         process_entry w d e =
           Inr \<lparr>updated = e\<lparr>local_image := Some (path_join d fn)\<rparr>, requests = [url],
                written = None, exit_at = CachedPostScrape\<rparr>)
    \<and> (get_and_raise_for_status (fetch_page w) url = Inr res
         \<and> spec_hit (entry_img_tag (parse w (resp_text res))) = Some src
         \<and> sanitize_filename (splitext_urlpath w) (get_name e) (entry_img_url src) = Inr fn'
         \<and> stream_to_file w (entry_img_url src) (path_join d fn') = (None, wr) \<longrightarrow>
         download_image_from_entry w d e =
           Inr \<lparr>updated = e\<lparr>local_image := Some (path_join d fn')\<rparr>,
                requests = [url, entry_img_url src], written = wr, exit_at = Saved\<rparr>)"
proof -
  note s = sync_miss [OF assms] and a = async_miss [OF assms]
  have 1: "process_entry w d e =
      Inr \<lparr>updated = e\<lparr>local_image := Some (path_join d fn)\<rparr>, requests = [url],
           written = None, exit_at = CachedPostScrape\<rparr>"
    if h: "fetch_html w url = Some html" "html \<noteq> []"
      "extract_image_url (parse w html) = Some img_url"
      "sanitize_filename (splitext_urlpath w) (get_name e) img_url = Inr fn"
      "path_exists w (path_join d fn)"
  proof -
    have "img_url \<noteq> []" using h(3) by (rule extract_image_url_nonempty)
    then show ?thesis using h by (simp add: a truthy_def)
  qed
  have 2: "download_image_from_entry w d e =
      Inr \<lparr>updated = e\<lparr>local_image := Some (path_join d fn')\<rparr>,
           requests = [url, entry_img_url src], written = wr, exit_at = Saved\<rparr>"
    if h: "get_and_raise_for_status (fetch_page w) url = Inr res"
      "spec_hit (entry_img_tag (parse w (resp_text res))) = Some src"
      "sanitize_filename (splitext_urlpath w) (get_name e) (entry_img_url src) = Inr fn'"
      "stream_to_file w (entry_img_url src) (path_join d fn') = (None, wr)"
  proof -
    from h(2) have n: "\<not> no_src (entry_img_tag (parse w (resp_text res)))"
      by (simp add: no_src_spec_hit)
    from h(2) have t: "the (attr_get (the (entry_img_tag (parse w (resp_text res)))) ''src'') = src"
      by (auto simp: spec_hit_def split: option.splits if_splits)
    show ?thesis
      using h(1,3,4) n t by (simp add: s)
  qed
  from 1 2 show ?thesis by blast
qed

theorem recheck_destination_witness:
  "path_exists raced_env ''tmp/fake_animal.jpg''
   \<and> process_entry raced_env ''tmp'' example_entry =
       Inr \<lparr>updated = example_entry\<lparr>local_image := Some ''tmp/fake_animal.jpg''\<rparr>,
            requests = [example_url], written = None, exit_at = CachedPostScrape\<rparr>
   \<and> stream_to_file raced_env example_img_url ''tmp/fake_animal.jpg''
       = (None, Some (''tmp/fake_animal.jpg'', ''fakeimagedata''))
   \<and> download_image_from_entry raced_env ''tmp'' example_entry =
       Inr \<lparr>updated = example_entry\<lparr>local_image := Some ''tmp/fake_animal.jpg''\<rparr>,
            requests = [example_url, example_img_url],
            written = Some (''tmp/fake_animal.jpg'', ''fakeimagedata''), exit_at = Saved\<rparr>"
proof -
  have u: "wiki_url example_entry = Some example_url" and n: "example_url \<noteq> []"
    and f: "filter (prefix (safe_name (get_name example_entry))) [] = []"
    using example_miss by simp_all
  have l: "listdir raced_env = Inr []"
    by (simp add: raced_env_def example_env_def)
  have r1: "get_and_raise_for_status (fetch_page raced_env) example_url = Inr example_response"
    by code_simp
  have r2: "spec_hit (entry_img_tag (parse raced_env (resp_text example_response)))
      = Some ''//upload.wikimedia.org/fake_image.jpg''"
    by code_simp
  have r3: "entry_img_url ''//upload.wikimedia.org/fake_image.jpg'' = example_img_url"
    by code_simp
  have r4: "sanitize_filename (splitext_urlpath raced_env) (get_name example_entry)
      example_img_url = Inr ''fake_animal.jpg''"
    by code_simp
  have r5: "path_join ''tmp'' ''fake_animal.jpg'' = ''tmp/fake_animal.jpg''"
    by code_simp
  have r6: "stream_to_file raced_env example_img_url ''tmp/fake_animal.jpg''
      = (None, Some (''tmp/fake_animal.jpg'', ''fakeimagedata''))"
    by code_simp
  have r7: "fetch_html raced_env example_url = Some ''<html>'' \<and> ''<html>'' \<noteq> []"
    by code_simp
  have r8: "extract_image_url (parse raced_env ''<html>'') = Some example_img_url"
    by code_simp
  have r9: "path_exists raced_env ''tmp/fake_animal.jpg''"
    by code_simp
  show ?thesis
    using recheck_destination [OF u n l f, where d = "''tmp''" and res = example_response
        and src = "''//upload.wikimedia.org/fake_image.jpg''" and fn = "''fake_animal.jpg''"
        and fn' = "''fake_animal.jpg''" and html = "''<html>''" and img_url = example_img_url
        and wr = "Some (''tmp/fake_animal.jpg'', ''fakeimagedata'')"]
      r1 r2 r4 r6 r7 r8 r9
    unfolding r3 r5 by simp
qed

section \<open>Properties of the batches\<close>

lemma count_list_filter:
  "count_list (filter P xs) x = (if P x then count_list xs x else 0)"
  by (induction xs) auto

text \<open>
  C3 as stated fails on the thread-pool batch: an entry without a source URL is in the
  list handed to the workers.
\<close>

theorem batch_entries_counterexample:
  "\<not> truthy (wiki_url (example_entry\<lparr>wiki_url := None\<rparr>))
   \<and> download_images_entries [(''feline'', [example_entry\<lparr>wiki_url := None\<rparr>])]
       = [example_entry\<lparr>wiki_url := None\<rparr>]"
  by code_simp

text \<open>
  C3, amended. The async batch hands to its workers exactly the entries that carry a
  source URL, in input order, each as often as it occurs in the input. The thread-pool
  batch hands every entry to a worker, and the worker returns at once on an entry without
  a source URL: nothing requested, nothing written, the entry unchanged.
\<close>

theorem batch_entries:
  "async_download_images_entries m = filter (\<lambda>e. truthy (wiki_url e)) (concat (map snd m))
   \<and> count_list (async_download_images_entries m) e
       = (if truthy (wiki_url e) then count_list (concat (map snd m)) e else 0)
   \<and> download_images_entries m = concat (map snd m)
   \<and> (\<not> truthy (wiki_url e) \<longrightarrow>
        download_image_from_entry w d e =
          Inr \<lparr>updated = e, requests = [], written = None, exit_at = NoWikiUrl\<rparr>)"
proof -
  have a: "async_download_images_entries m
      = filter (\<lambda>e. truthy (wiki_url e)) (concat (map snd m))"
    by (simp add: async_download_images_entries_def filter_concat comp_def)
  have b: "download_images_entries m = concat (map snd m)"
    by (simp add: download_images_entries_def)
  have c: "download_image_from_entry w d e =
      Inr \<lparr>updated = e, requests = [], written = None, exit_at = NoWikiUrl\<rparr>"
    if "\<not> truthy (wiki_url e)"
    using that by (simp add: download_image_from_entry_def)
  from a b c show ?thesis
    by (simp add: count_list_filter)
qed

theorem batch_entries_witness:
  "\<not> truthy (wiki_url (example_entry\<lparr>wiki_url := None\<rparr>))
   \<and> async_download_images_entries
         [(''feline'', [example_entry\<lparr>wiki_url := None\<rparr>, example_entry])]
       = [example_entry]
   \<and> download_images_entries
         [(''feline'', [example_entry\<lparr>wiki_url := None\<rparr>, example_entry])]
       = [example_entry\<lparr>wiki_url := None\<rparr>, example_entry]
   \<and> download_image_from_entry example_env ''tmp'' (example_entry\<lparr>wiki_url := None\<rparr>) =
       Inr \<lparr>updated = example_entry\<lparr>wiki_url := None\<rparr>, requests = [], written = None,
            exit_at = NoWikiUrl\<rparr>"
proof -
  have h: "\<not> truthy (wiki_url (example_entry\<lparr>wiki_url := None\<rparr>))"
    by code_simp
  have t: "truthy (wiki_url example_entry)"
    by code_simp
  show ?thesis
    using batch_entries [of "[(''feline'', [example_entry\<lparr>wiki_url := None\<rparr>, example_entry])]"
        "example_entry\<lparr>wiki_url := None\<rparr>" example_env "''tmp''"] h t
    by simp
qed

end
